theory Spec2Isabelle
  imports Complex_Main
begin

section \<open>Values, records and errors\<close>

text \<open>
  The readers of \<^verbatim>\<open>catalyst/data/reader.py\<close> turn one annotation row (a Python dict)
  into a dict of named values. A Python float is modelled by its exact value or one of
  the three special values; the only floats the readers build themselves are 0.0 and 1.0.
\<close>

datatype pyfloat = Fin rat | NaN | PosInf | NegInf

text \<open>
  What a dtype produces: None, an int, a float or text. Python's bool is left out: the
  numeric dtypes turn it into 0 or 1.
\<close>

datatype scalar = SNone | SInt int | SFloat pyfloat | SStr string

text \<open>
  What a row or an output dict holds: a scalar, a one-dimensional float array, or an
  object this module never looks into (a decoded image, an encoded text).
\<close>

datatype 'o pyval = Scalar scalar | Array "pyfloat list" | Obj 'o

text \<open>
  The exceptions: \<open>KeyError k\<close> is the failed lookup \<^verbatim>\<open>row[k]\<close>; \<open>External\<close> is
  whatever an injected callable or the image decoder raises besides the others.
\<close>

datatype error = KeyError string | TypeError | ValueError | IndexError | OverflowError
  | External string

type_synonym 'o row = "string \<rightharpoonup> 'o pyval"

section \<open>The library operations the readers call\<close>

text \<open>\<^verbatim>\<open>row.get(key, default)\<close>: the stored value when the key is present, even when
  that value is None; the default only when the key is absent.\<close>

definition dict_get :: "('k \<rightharpoonup> 'v) \<Rightarrow> 'k \<Rightarrow> 'v \<Rightarrow> 'v" where
  "dict_get d k dflt = (case d k of None \<Rightarrow> dflt | Some v \<Rightarrow> v)"

text \<open>\<^verbatim>\<open>row[key]\<close>: KeyError when the key is absent.\<close>

definition dict_item :: "(string \<rightharpoonup> 'v) \<Rightarrow> string \<Rightarrow> error + 'v" where
  "dict_item d k = (case d k of None \<Rightarrow> Inl (KeyError k) | Some v \<Rightarrow> Inr v)"

text \<open>The comparison \<^verbatim>\<open>x >= n\<close> of a float with an int: nan compares false.\<close>

fun float_ge :: "pyfloat \<Rightarrow> int \<Rightarrow> bool" where
  "float_ge (Fin q) n = (of_int n \<le> q)"
| "float_ge NaN n = False"
| "float_ge PosInf n = True"
| "float_ge NegInf n = False"

text \<open>\<^verbatim>\<open>scalar >= n\<close>: None and text are not ordered against an int (TypeError).\<close>

fun scalar_ge :: "scalar \<Rightarrow> int \<Rightarrow> error + bool" where
  "scalar_ge (SInt i) n = Inr (n \<le> i)"
| "scalar_ge (SFloat f) n = Inr (float_ge f n)"
| "scalar_ge (SStr s) n = Inl TypeError"
| "scalar_ge SNone n = Inl TypeError"

text \<open>
  \<^verbatim>\<open>np.zeros(n, dtype=np.float32)\<close>: a negative length is a ValueError. The limits of
  memory and of the index type are not modelled.
\<close>

definition np_zeros :: "int \<Rightarrow> error + pyfloat list" where
  "np_zeros n = (if n < 0 then Inl ValueError else Inr (replicate (nat n) (Fin 0)))"

text \<open>
  \<^verbatim>\<open>a[index] = v\<close> on a one-dimensional array. An int index counts from the end when
  negative and is an IndexError out of range; a float or text index is an IndexError
  (only integers are valid indices); None is \<^verbatim>\<open>np.newaxis\<close> and assigns every element.
\<close>

fun np_setitem :: "pyfloat list \<Rightarrow> scalar \<Rightarrow> pyfloat \<Rightarrow> error + pyfloat list" where
  "np_setitem a (SInt i) v =
     (if 0 \<le> i \<and> i < int (length a) then Inr (a[nat i := v])
      else if i < 0 \<and> - int (length a) \<le> i then Inr (a[nat (int (length a) + i) := v])
      else Inl IndexError)"
| "np_setitem a (SFloat f) v = Inl IndexError"
| "np_setitem a (SStr s) v = Inl IndexError"
| "np_setitem a SNone v = Inr (map (\<lambda>_. v) a)"

section \<open>The readers\<close>

text \<open>\<^verbatim>\<open>BaseReader\<close>: the input key and the output key.\<close>

record base_reader =
  row_key :: string
  dict_key :: string

subsection \<open>ScalarReader\<close>

text \<open>
  \<^verbatim>\<open>dtype\<close> is any callable; \<^verbatim>\<open>default_value\<close> is any value, None when not given;
  \<^verbatim>\<open>one_hot_classes\<close> is an int or None.
\<close>

record 'o scalar_reader = base_reader +
  dtype :: "'o pyval \<Rightarrow> error + scalar"
  default_value :: "'o pyval"
  one_hot_classes :: "int option"

text \<open>Lines 83 to 85: the zero vector, then the assignment at the scalar.\<close>

definition one_hot_of :: "int \<Rightarrow> scalar \<Rightarrow> error + pyfloat list" where
  "one_hot_of n scalar =
     (case np_zeros n of
        Inl e \<Rightarrow> Inl e
      | Inr one_hot \<Rightarrow> np_setitem one_hot scalar (Fin 1))"

text \<open>
  \<^verbatim>\<open>ScalarReader.__call__\<close>. The condition of line 81 is evaluated left to right and
  stops at the first false conjunct, so the comparison runs only with a class count
  and a scalar that is not None.
\<close>

definition ScalarReader_call :: "'o scalar_reader \<Rightarrow> 'o row \<Rightarrow> error + 'o row" where
  "ScalarReader_call self row =
     (case dtype self (dict_get row (row_key self) (default_value self)) of
        Inl e \<Rightarrow> Inl e
      | Inr scalar \<Rightarrow>
          (case one_hot_classes self of
             None \<Rightarrow> Inr [dict_key self \<mapsto> Scalar scalar]
           | Some n \<Rightarrow>
               if scalar = SNone then Inr [dict_key self \<mapsto> Scalar scalar]
               else (case scalar_ge scalar 0 of
                       Inl e \<Rightarrow> Inl e
                     | Inr False \<Rightarrow> Inr [dict_key self \<mapsto> Scalar scalar]
                     | Inr True \<Rightarrow>
                         (case one_hot_of n scalar of
                            Inl e \<Rightarrow> Inl e
                          | Inr one_hot \<Rightarrow> Inr [dict_key self \<mapsto> Array one_hot]))))"

subsection \<open>TextReader\<close>

record 'o text_reader = base_reader +
  encode_fn :: "'o pyval \<Rightarrow> error + 'o pyval"

definition TextReader_call :: "'o text_reader \<Rightarrow> 'o row \<Rightarrow> error + 'o row" where
  "TextReader_call self row =
     (case dict_item row (row_key self) of
        Inl e \<Rightarrow> Inl e
      | Inr text \<Rightarrow>
          (case encode_fn self text of
             Inl e \<Rightarrow> Inl e
           | Inr text' \<Rightarrow> Inr [dict_key self \<mapsto> text']))"

subsection \<open>ImageReader\<close>

text \<open>
  \<^verbatim>\<open>read_image\<close> lives in \<^verbatim>\<open>catalyst.data.functional\<close> and \<^verbatim>\<open>str\<close> is the builtin;
  both are parameters here. \<^verbatim>\<open>str\<close> does not fail on the values of this model.
\<close>

record 'o lib =
  py_str :: "'o pyval \<Rightarrow> string"
  read_image :: "string \<Rightarrow> string option \<Rightarrow> bool \<Rightarrow> error + 'o pyval"

record image_reader = base_reader +
  datapath :: "string option"
  grayscale :: bool

definition ImageReader_call :: "'o lib \<Rightarrow> image_reader \<Rightarrow> 'o row \<Rightarrow> error + 'o row" where
  "ImageReader_call L self row =
     (case dict_item row (row_key self) of
        Inl e \<Rightarrow> Inl e
      | Inr v \<Rightarrow>
          (case read_image L (py_str L v) (datapath self) (grayscale self) of
             Inl e \<Rightarrow> Inl e
           | Inr img \<Rightarrow> Inr [dict_key self \<mapsto> img]))"

subsection \<open>ReaderCompose\<close>

text \<open>A reader in the list is one of the three leaf readers; \<^verbatim>\<open>fn(row)\<close> dispatches.\<close>

datatype 'o reader =
    ImageR image_reader
  | ScalarR "'o scalar_reader"
  | TextR "'o text_reader"

fun reader_call :: "'o lib \<Rightarrow> 'o reader \<Rightarrow> 'o row \<Rightarrow> error + 'o row" where
  "reader_call L (ImageR r) row = ImageReader_call L r row"
| "reader_call L (ScalarR r) row = ScalarReader_call r row"
| "reader_call L (TextR r) row = TextReader_call r row"

type_synonym 'o mixin = "'o row \<Rightarrow> error + 'o row"

record 'o reader_compose =
  readers :: "'o reader list"
  mixins :: "'o mixin list"

text \<open>The first loop: \<^verbatim>\<open>result = {**result, **fn(row)}\<close>; the right operand wins.\<close>

fun run_readers :: "'o lib \<Rightarrow> 'o reader list \<Rightarrow> 'o row \<Rightarrow> 'o row \<Rightarrow> error + 'o row" where
  "run_readers L [] row result = Inr result"
| "run_readers L (fn # fns) row result =
     (case reader_call L fn row of
        Inl e \<Rightarrow> Inl e
      | Inr d \<Rightarrow> run_readers L fns row (result ++ d))"

text \<open>The second loop: \<^verbatim>\<open>result = {**result, **fn(result)}\<close>.\<close>

fun run_mixins :: "'o mixin list \<Rightarrow> 'o row \<Rightarrow> error + 'o row" where
  "run_mixins [] result = Inr result"
| "run_mixins (fn # fns) result =
     (case fn result of
        Inl e \<Rightarrow> Inl e
      | Inr d \<Rightarrow> run_mixins fns (result ++ d))"

definition ReaderCompose_call :: "'o lib \<Rightarrow> 'o reader_compose \<Rightarrow> 'o row \<Rightarrow> error + 'o row" where
  "ReaderCompose_call L self row =
     (case run_readers L (readers self) row Map.empty of
        Inl e \<Rightarrow> Inl e
      | Inr result \<Rightarrow> run_mixins (mixins self) result)"

section \<open>Constructors and the usual dtypes\<close>

text \<open>
  Three callables that are passed as \<^verbatim>\<open>dtype\<close>: the builtins \<^verbatim>\<open>int\<close> and \<^verbatim>\<open>float\<close>,
  and \<^verbatim>\<open>np.float32\<close>, the default. They are library code, described here on None, ints
  and floats: \<^verbatim>\<open>int(None)\<close> and \<^verbatim>\<open>float(None)\<close> raise TypeError, \<^verbatim>\<open>np.float32(None)\<close>
  is nan, \<^verbatim>\<open>int\<close> truncates a float toward zero. The rounding of a conversion to a
  float (beyond 53, respectively 24, significant bits) and the parsing of text are not
  described: text is rejected as a malformed numeral is, and no statement below
  applies these functions to text or to a number that would be rounded.
\<close>

fun int_dtype :: "'o pyval \<Rightarrow> error + scalar" where
  "int_dtype (Scalar SNone) = Inl TypeError"
| "int_dtype (Scalar (SInt i)) = Inr (SInt i)"
| "int_dtype (Scalar (SFloat (Fin q))) = Inr (SInt (if 0 \<le> q then \<lfloor>q\<rfloor> else \<lceil>q\<rceil>))"
| "int_dtype (Scalar (SFloat NaN)) = Inl ValueError"
| "int_dtype (Scalar (SFloat PosInf)) = Inl OverflowError"
| "int_dtype (Scalar (SFloat NegInf)) = Inl OverflowError"
| "int_dtype (Scalar (SStr s)) = Inl ValueError"
| "int_dtype (Array a) = Inl TypeError"
| "int_dtype (Obj x) = Inl TypeError"

fun float_dtype :: "'o pyval \<Rightarrow> error + scalar" where
  "float_dtype (Scalar SNone) = Inl TypeError"
| "float_dtype (Scalar (SInt i)) = Inr (SFloat (Fin (of_int i)))"
| "float_dtype (Scalar (SFloat f)) = Inr (SFloat f)"
| "float_dtype (Scalar (SStr s)) = Inl ValueError"
| "float_dtype (Array a) = Inl TypeError"
| "float_dtype (Obj x) = Inl TypeError"

fun float32_dtype :: "'o pyval \<Rightarrow> error + scalar" where
  "float32_dtype (Scalar SNone) = Inr (SFloat NaN)"
| "float32_dtype (Scalar (SInt i)) = Inr (SFloat (Fin (of_int i)))"
| "float32_dtype (Scalar (SFloat f)) = Inr (SFloat f)"
| "float32_dtype (Scalar (SStr s)) = Inl ValueError"
| "float32_dtype (Array a) = Inl TypeError"
| "float32_dtype (Obj x) = Inl TypeError"

text \<open>
  The constructors. A keyword argument that is not given is \<open>None\<close> here and takes
  the default of the signature: \<^verbatim>\<open>dtype=np.float32\<close>, \<^verbatim>\<open>default_value=None\<close>,
  \<^verbatim>\<open>one_hot_classes=None\<close>, \<^verbatim>\<open>encode_fn=lambda x: x\<close>, \<^verbatim>\<open>datapath=None\<close>,
  \<^verbatim>\<open>grayscale=False\<close>, \<^verbatim>\<open>mixins=None\<close> (stored as the empty list).
\<close>

definition ScalarReader ::
  "string \<Rightarrow> string \<Rightarrow> ('o pyval \<Rightarrow> error + scalar) option \<Rightarrow> 'o pyval option \<Rightarrow> int option
     \<Rightarrow> 'o scalar_reader" where
  "ScalarReader rk dk dt dv ohc =
     \<lparr>row_key = rk, dict_key = dk,
      dtype = (case dt of None \<Rightarrow> float32_dtype | Some f \<Rightarrow> f),
      default_value = (case dv of None \<Rightarrow> Scalar SNone | Some v \<Rightarrow> v),
      one_hot_classes = ohc\<rparr>"

definition TextReader ::
  "string \<Rightarrow> string \<Rightarrow> ('o pyval \<Rightarrow> error + 'o pyval) option \<Rightarrow> 'o text_reader" where
  "TextReader rk dk ef =
     \<lparr>row_key = rk, dict_key = dk,
      encode_fn = (case ef of None \<Rightarrow> (\<lambda>x. Inr x) | Some f \<Rightarrow> f)\<rparr>"

definition ImageReader :: "string \<Rightarrow> string \<Rightarrow> string option \<Rightarrow> bool option \<Rightarrow> image_reader" where
  "ImageReader rk dk dp gs =
     \<lparr>row_key = rk, dict_key = dk, datapath = dp,
      grayscale = (case gs of None \<Rightarrow> False | Some b \<Rightarrow> b)\<rparr>"

definition ReaderCompose :: "'o reader list \<Rightarrow> 'o mixin list option \<Rightarrow> 'o reader_compose" where
  "ReaderCompose rs ms =
     \<lparr>readers = rs, mixins = (case ms of None \<Rightarrow> [] | Some l \<Rightarrow> l)\<rparr>"

text \<open>
  \<^verbatim>\<open>str.upper\<close> on ASCII text, an encode function of the examples; called on anything
  but text it raises TypeError.
\<close>

definition char_upper :: "char \<Rightarrow> char" where
  "char_upper c =
     (let n = (of_char c :: nat) in if 97 \<le> n \<and> n \<le> 122 then char_of (n - 32) else c)"

fun str_upper :: "'o pyval \<Rightarrow> error + 'o pyval" where
  "str_upper (Scalar (SStr s)) = Inr (Scalar (SStr (map char_upper s)))"
| "str_upper v = Inl TypeError"

text \<open>
  A library instance for the examples: no image file exists, so every decode fails;
  \<^verbatim>\<open>str\<close> is taken on text, where it is the identity.
\<close>

definition no_files :: "'o lib" where
  "no_files =
     \<lparr>py_str = (\<lambda>v. case v of Scalar (SStr s) \<Rightarrow> s | _ \<Rightarrow> []),
      read_image = (\<lambda>name dp gs. Inl (External ''FileNotFoundError''))\<rparr>"

text \<open>A mixin of the examples, \<^verbatim>\<open>lambda d: {"copy": d["out"]}\<close>.\<close>

definition copy_out :: "'o mixin" where
  "copy_out d = (case dict_item d ''out'' of Inl e \<Rightarrow> Inl e | Inr v \<Rightarrow> Inr [''copy'' \<mapsto> v])"

text \<open>
  A library instance with one image file: the decoder returns the given image for the
  name \<^verbatim>\<open>a.png\<close> and fails for every other name.
\<close>

definition one_file :: "'o pyval \<Rightarrow> 'o lib" where
  "one_file img =
     \<lparr>py_str = (\<lambda>v. case v of Scalar (SStr s) \<Rightarrow> s | _ \<Rightarrow> []),
      read_image = (\<lambda>name dp gs.
        if name = ''a.png'' then Inr img else Inl (External ''FileNotFoundError''))\<rparr>"

section \<open>The words of the claims about scalars\<close>

text \<open>A coerced scalar is negative: a number below zero (nan is not).\<close>

fun negative :: "scalar \<Rightarrow> bool" where
  "negative (SInt i) = (i < 0)"
| "negative (SFloat (Fin q)) = (q < 0)"
| "negative (SFloat NegInf) = True"
| "negative s = False"


section \<open>Last write wins\<close>

text \<open>
  The specification's reading of the merge: of a list of dicts written one after the
  other, a key holds the value of the last dict that has it.
\<close>

definition last_write :: "('k \<rightharpoonup> 'v) list \<Rightarrow> ('k \<rightharpoonup> 'v)" where
  "last_write ds k =
     (case filter (\<lambda>d. d k \<noteq> None) ds of
        [] \<Rightarrow> None
      | x # xs \<Rightarrow> last (x # xs) k)"

section \<open>Which callables an invocation reaches\<close>

text \<open>
  \<^verbatim>\<open>ReaderCompose.__call__\<close> once more, recording each call of a reader or a mixin by
  its position in its list, in the order the calls are made.
\<close>

datatype invocation = ReaderAt nat | MixinAt nat

fun trace_readers ::
  "'o lib \<Rightarrow> 'o reader list \<Rightarrow> 'o row \<Rightarrow> nat \<Rightarrow> 'o row \<Rightarrow> invocation list \<times> (error + 'o row)" where
  "trace_readers L [] row i result = ([], Inr result)"
| "trace_readers L (fn # fns) row i result =
     (case reader_call L fn row of
        Inl e \<Rightarrow> ([ReaderAt i], Inl e)
      | Inr d \<Rightarrow>
          (case trace_readers L fns row (Suc i) (result ++ d) of
             (t, r) \<Rightarrow> (ReaderAt i # t, r)))"

fun trace_mixins ::
  "'o mixin list \<Rightarrow> nat \<Rightarrow> 'o row \<Rightarrow> invocation list \<times> (error + 'o row)" where
  "trace_mixins [] j result = ([], Inr result)"
| "trace_mixins (fn # fns) j result =
     (case fn result of
        Inl e \<Rightarrow> ([MixinAt j], Inl e)
      | Inr d \<Rightarrow>
          (case trace_mixins fns (Suc j) (result ++ d) of
             (t, r) \<Rightarrow> (MixinAt j # t, r)))"

definition ReaderCompose_trace ::
  "'o lib \<Rightarrow> 'o reader_compose \<Rightarrow> 'o row \<Rightarrow> invocation list \<times> (error + 'o row)" where
  "ReaderCompose_trace L self row =
     (case trace_readers L (readers self) row 0 Map.empty of
        (t, Inl e) \<Rightarrow> (t, Inl e)
      | (t, Inr result) \<Rightarrow>
          (case trace_mixins (mixins self) 0 result of
             (t', r) \<Rightarrow> (t @ t', r)))"

text \<open>
  A reader's collaborator raises on a row: the image decoder on the name found in the
  row, the dtype on the value looked up (or the default), the encode function on the
  text found in the row.
\<close>

fun collaborator_fails :: "'o lib \<Rightarrow> 'o reader \<Rightarrow> 'o row \<Rightarrow> error \<Rightarrow> bool" where
  "collaborator_fails L (ImageR r) row e =
     (case row (row_key r) of
        None \<Rightarrow> False
      | Some v \<Rightarrow> read_image L (py_str L v) (datapath r) (grayscale r) = Inl e)"
| "collaborator_fails L (ScalarR r) row e =
     (dtype r (dict_get row (row_key r) (default_value r)) = Inl e)"
| "collaborator_fails L (TextR r) row e =
     (case row (row_key r) of
        None \<Rightarrow> False
      | Some v \<Rightarrow> encode_fn r v = Inl e)"

section \<open>What an invocation may change\<close>

text \<open>
  For this question the values are objects. The heap is the list of the objects that
  exist, a reference is a position in it, and the row maps its keys to references, so
  that a callee which is handed a value of the row holds the row's own object. The
  data attributes of a reader are the record \<open>self_obj\<close>. The callables a method calls
  (\<^verbatim>\<open>self.dtype\<close>, \<^verbatim>\<open>self.encode_fn\<close>, \<^verbatim>\<open>str\<close>, \<^verbatim>\<open>read_image\<close>) are parameters: a callee
  receives its argument and the world, and returns the world as it leaves it, so it may
  assign into the object it was handed and, through what it has captured, into
  anything else.
\<close>

type_synonym ref = nat

record ('c, 'o) world =
  self_obj :: 'c
  row_obj :: "string \<rightharpoonup> ref"
  heap :: "'o pyval list"

type_synonym ('c, 'o, 'a) step = "('c, 'o) world \<Rightarrow> ('c, 'o) world \<times> (error + 'a)"

text \<open>The statements of the methods: a value at hand, and one statement after another.\<close>

definition done_with :: "'a \<Rightarrow> ('c, 'o, 'a) step" where
  "done_with x = (\<lambda>s. (s, Inr x))"

definition and_then :: "('c, 'o, 'a) step \<Rightarrow> ('a \<Rightarrow> ('c, 'o, 'b) step) \<Rightarrow> ('c, 'o, 'b) step" where
  "and_then m f = (\<lambda>s. case m s of (s', Inl e) \<Rightarrow> (s', Inl e) | (s', Inr x) \<Rightarrow> f x s')"

text \<open>\<^verbatim>\<open>self.name\<close>, \<^verbatim>\<open>row[key]\<close> and \<^verbatim>\<open>row.get(key, default)\<close>; the last two give a reference.\<close>

definition attribute :: "('c \<Rightarrow> 'a) \<Rightarrow> ('c, 'o, 'a) step" where
  "attribute f = (\<lambda>s. (s, Inr (f (self_obj s))))"

definition row_item :: "string \<Rightarrow> ('c, 'o, ref) step" where
  "row_item k = (\<lambda>s. (s, dict_item (row_obj s) k))"

definition row_get :: "string \<Rightarrow> ref \<Rightarrow> ('c, 'o, ref) step" where
  "row_get k dflt = (\<lambda>s. (s, Inr (dict_get (row_obj s) k dflt)))"

text \<open>An operation on numbers, which are immutable: its result and nothing else.\<close>

definition compute :: "error + 'a \<Rightarrow> ('c, 'o, 'a) step" where
  "compute r = (\<lambda>s. (s, r))"

text \<open>A new object: it takes the next position of the heap.\<close>

definition new_object :: "'o pyval \<Rightarrow> ('c, 'o, ref) step" where
  "new_object v = (\<lambda>s. (s\<lparr>heap := heap s @ [v]\<rparr>, Inr (length (heap s))))"

text \<open>\<^verbatim>\<open>a[index] = v\<close> on the array object at a reference: the object is changed in place.\<close>

definition set_item :: "ref \<Rightarrow> scalar \<Rightarrow> pyfloat \<Rightarrow> ('c, 'o, unit) step" where
  "set_item a i v =
     (\<lambda>s. if a < length (heap s) then
             (case heap s ! a of
                Array xs \<Rightarrow>
                  (case np_setitem xs i v of
                     Inl e \<Rightarrow> (s, Inl e)
                   | Inr xs' \<Rightarrow> (s\<lparr>heap := (heap s)[a := Array xs']\<rparr>, Inr ()))
              | _ \<Rightarrow> (s, Inl TypeError))
           else (s, Inl TypeError))"

text \<open>\<^verbatim>\<open>ImageReader.__call__\<close>, with \<^verbatim>\<open>str\<close> and \<^verbatim>\<open>read_image\<close> as callees.\<close>

definition ImageReader_steps ::
  "(ref \<Rightarrow> (image_reader, 'o, string) step)
     \<Rightarrow> (string \<Rightarrow> string option \<Rightarrow> bool \<Rightarrow> (image_reader, 'o, ref) step)
     \<Rightarrow> (image_reader, 'o, string \<rightharpoonup> ref) step" where
  "ImageReader_steps str_c read_c =
     and_then (attribute row_key) (\<lambda>k.
     and_then (row_item k) (\<lambda>v.
     and_then (str_c v) (\<lambda>image_name.
     and_then (attribute datapath) (\<lambda>dp.
     and_then (attribute grayscale) (\<lambda>gs.
     and_then (read_c image_name dp gs) (\<lambda>img.
     and_then (attribute dict_key) (\<lambda>dk.
     done_with [dk \<mapsto> img])))))))"

text \<open>
  The data attributes of a scalar reader: the default value is a reference like any
  other value. The scalar a dtype returns is a number, None or text, which are
  immutable; it becomes an object of the heap when the output dict refers to it.
\<close>

record scalar_attributes = base_reader +
  default_ref :: ref
  class_count :: "int option"

text \<open>Lines 81 to 85: the zero vector is a new object, and the assignment is into it.\<close>

definition one_hot_steps :: "int option \<Rightarrow> scalar \<Rightarrow> ('c, 'o, ref) step" where
  "one_hot_steps classes scalar =
     (case classes of
        None \<Rightarrow> new_object (Scalar scalar)
      | Some n \<Rightarrow>
          if scalar = SNone then new_object (Scalar scalar)
          else and_then (compute (scalar_ge scalar 0)) (\<lambda>b.
               if b then
                 and_then (compute (np_zeros n)) (\<lambda>zeros.
                 and_then (new_object (Array zeros)) (\<lambda>one_hot.
                 and_then (set_item one_hot scalar (Fin 1)) (\<lambda>_.
                 done_with one_hot)))
               else new_object (Scalar scalar)))"

text \<open>\<^verbatim>\<open>ScalarReader.__call__\<close>, with \<^verbatim>\<open>self.dtype\<close> as callee.\<close>

definition ScalarReader_steps ::
  "(ref \<Rightarrow> (scalar_attributes, 'o, scalar) step) \<Rightarrow> (scalar_attributes, 'o, string \<rightharpoonup> ref) step" where
  "ScalarReader_steps dtype_c =
     and_then (attribute row_key) (\<lambda>k.
     and_then (attribute default_ref) (\<lambda>dflt.
     and_then (row_get k dflt) (\<lambda>v.
     and_then (dtype_c v) (\<lambda>scalar.
     and_then (attribute class_count) (\<lambda>classes.
     and_then (one_hot_steps classes scalar) (\<lambda>out.
     and_then (attribute dict_key) (\<lambda>dk.
     done_with [dk \<mapsto> out])))))))"

text \<open>\<^verbatim>\<open>TextReader.__call__\<close>, with \<^verbatim>\<open>self.encode_fn\<close> as callee.\<close>

definition TextReader_steps ::
  "(ref \<Rightarrow> (base_reader, 'o, ref) step) \<Rightarrow> (base_reader, 'o, string \<rightharpoonup> ref) step" where
  "TextReader_steps encode_c =
     and_then (attribute row_key) (\<lambda>k.
     and_then (row_item k) (\<lambda>text.
     and_then (encode_c text) (\<lambda>text'.
     and_then (attribute dict_key) (\<lambda>dk.
     done_with [dk \<mapsto> text']))))"

text \<open>
  One world keeps another: the reader's attributes and the row are the same, and every
  object that existed is still what it was; objects may have been added.
\<close>

definition keeps :: "('c, 'o) world \<Rightarrow> ('c, 'o) world \<Rightarrow> bool" where
  "keeps s s' =
     (self_obj s' = self_obj s \<and> row_obj s' = row_obj s
      \<and> take (length (heap s)) (heap s') = heap s)"

text \<open>
  Callees that do no more than the callables of the value model: one that reads the
  object it is handed and returns a result, one that returns its result as a new
  object, and the image decoder of a library.
\<close>

definition value_callee :: "('o pyval \<Rightarrow> error + 'a) \<Rightarrow> ref \<Rightarrow> ('c, 'o, 'a) step" where
  "value_callee f a =
     (\<lambda>s. (s, if a < length (heap s) then f (heap s ! a) else Inl (External ''no object'')))"

definition object_callee :: "('o pyval \<Rightarrow> error + 'o pyval) \<Rightarrow> ref \<Rightarrow> ('c, 'o, ref) step" where
  "object_callee f a = and_then (value_callee f a) new_object"

definition decoder_callee ::
  "'o lib \<Rightarrow> string \<Rightarrow> string option \<Rightarrow> bool \<Rightarrow> ('c, 'o, ref) step" where
  "decoder_callee L name dp gs = and_then (compute (read_image L name dp gs)) new_object"

text \<open>The dict of values that a dict of references stands for.\<close>

definition view :: "'o pyval list \<Rightarrow> (string \<rightharpoonup> ref) \<Rightarrow> 'o row" where
  "view h d =
     (\<lambda>k. case d k of
            None \<Rightarrow> None
          | Some a \<Rightarrow> if a < length h then Some (h ! a) else None)"

text \<open>
  Two callees of the examples: the default encode function \<^verbatim>\<open>lambda x: x\<close>, which
  returns the object it was handed, and an encode function that fills the array it was
  handed with zeros in place (\<^verbatim>\<open>x.fill(0)\<close>) and returns it.
\<close>

definition same_object :: "ref \<Rightarrow> ('c, 'o, ref) step" where
  "same_object a = done_with a"

definition fill_zero :: "ref \<Rightarrow> ('c, 'o, ref) step" where
  "fill_zero a =
     (\<lambda>s. if a < length (heap s) then
             (case heap s ! a of
                Array xs \<Rightarrow> (s\<lparr>heap := (heap s)[a := Array (map (\<lambda>_. Fin 0) xs)]\<rparr>, Inr a)
              | _ \<Rightarrow> (s, Inl (External ''AttributeError'')))
           else (s, Inl (External ''AttributeError'')))"

text \<open>
  Three worlds of the examples: a row with an image name, a row \<^verbatim>\<open>{"x": 3}\<close> for a
  scalar reader with five classes whose default is None, and a row whose text field
  holds an array.
\<close>

definition image_world :: "(image_reader, 'o) world" where
  "image_world =
     \<lparr>self_obj = ImageReader ''path'' ''image'' None None,
      row_obj = [''path'' \<mapsto> 0],
      heap = [Scalar (SStr ''a.png'')]\<rparr>"

definition scalar_world :: "(scalar_attributes, 'o) world" where
  "scalar_world =
     \<lparr>self_obj = \<lparr>row_key = ''x'', dict_key = ''y'', default_ref = 1, class_count = Some 5\<rparr>,
      row_obj = [''x'' \<mapsto> 0],
      heap = [Scalar (SInt 3), Scalar SNone]\<rparr>"

definition text_world :: "(base_reader, 'o) world" where
  "text_world =
     \<lparr>self_obj = \<lparr>row_key = ''t'', dict_key = ''enc''\<rparr>,
      row_obj = [''t'' \<mapsto> 0],
      heap = [Array [Fin 1, Fin 2]]\<rparr>"

section \<open>The scalar reader\<close>

subsection \<open>Where its errors come from\<close>

lemma scalar_ge_error: "scalar_ge s n = Inl e \<Longrightarrow> e = TypeError"
  by (cases s) auto

lemma np_setitem_error: "np_setitem a s v = Inl e \<Longrightarrow> e = IndexError"
  by (cases s) (auto split: if_splits)

lemma one_hot_of_error: "one_hot_of n s = Inl e \<Longrightarrow> e = ValueError \<or> e = IndexError"
  by (auto simp: one_hot_of_def np_zeros_def split: if_splits dest: np_setitem_error)

lemma ScalarReader_call_error:
  assumes "ScalarReader_call self row = Inl e"
  shows "dtype self (dict_get row (row_key self) (default_value self)) = Inl e
         \<or> e = TypeError \<or> e = ValueError \<or> e = IndexError"
  using assms
  by (auto simp: ScalarReader_call_def
      split: sum.splits option.splits if_splits bool.splits
      dest: scalar_ge_error one_hot_of_error)

lemma one_hot_of_int:
  "0 \<le> i \<Longrightarrow> i < n \<Longrightarrow>
   one_hot_of n (SInt i) = Inr ((replicate (nat n) (Fin 0))[nat i := Fin 1])"
  by (simp add: one_hot_of_def np_zeros_def)

lemma negative_ge: "negative s \<Longrightarrow> s \<noteq> SNone \<and> scalar_ge s 0 = Inr False"
  by (induction s rule: negative.induct) auto


subsection \<open>One-hot encoding\<close>

text \<open>
  Claim C2, as amended. With a class count \<open>n\<close>, when the source field is present and
  its value coerces to an int \<open>i\<close> with \<open>0 \<le> i < n\<close>, the output value is the float
  vector of \<open>n\<close> zeros with a one at index \<open>i\<close>, in place of the scalar.
\<close>

theorem ScalarReader_one_hot_int:
  assumes "row (row_key self) = Some v"
      and "dtype self v = Inr (SInt i)"
      and "one_hot_classes self = Some n"
      and "0 \<le> i" and "i < n"
    shows "ScalarReader_call self row
             = Inr [dict_key self \<mapsto> Array ((replicate (nat n) (Fin 0))[nat i := Fin 1])]"
  using assms by (simp add: ScalarReader_call_def dict_get_def one_hot_of_int)

text \<open>The row \<^verbatim>\<open>{"x": 3}\<close> with \<^verbatim>\<open>dtype=int\<close> and five classes.\<close>

theorem ScalarReader_one_hot_int_witness:
  "ScalarReader_call (ScalarReader ''x'' ''y'' (Some int_dtype) None (Some 5))
       [''x'' \<mapsto> Scalar (SInt 3) :: unit pyval]
     = Inr [''y'' \<mapsto> Array [Fin 0, Fin 0, Fin 0, Fin 1, Fin 0]]"
proof -
  let ?r = "ScalarReader ''x'' ''y'' (Some int_dtype) None (Some 5) :: unit scalar_reader"
  let ?row = "[''x'' \<mapsto> Scalar (SInt 3) :: unit pyval]"
  have "?row (row_key ?r) = Some (Scalar (SInt 3))" by (simp add: ScalarReader_def)
  moreover have "dtype ?r (Scalar (SInt 3)) = Inr (SInt 3)" by (simp add: ScalarReader_def)
  moreover have "one_hot_classes ?r = Some 5" by (simp add: ScalarReader_def)
  ultimately have "ScalarReader_call ?r ?row
      = Inr [dict_key ?r \<mapsto> Array ((replicate (nat 5) (Fin 0))[nat 3 := Fin 1])]"
    by (rule ScalarReader_one_hot_int) simp_all
  moreover have "(replicate (nat 5) (Fin 0))[nat 3 := Fin 1] = [Fin 0, Fin 0, Fin 0, Fin 1, Fin 0]"
    by (simp add: numeral_eq_Suc)
  ultimately show ?thesis by (simp add: ScalarReader_def)
qed

text \<open>
  The claim as first stated asks only for a scalar from 0 up to the class count. With
  the default dtype the row \<^verbatim>\<open>{"x": 3}\<close> coerces to the float 3.0, which is in that
  range, and the assignment \<^verbatim>\<open>one_hot[scalar] = 1.0\<close> raises IndexError: a float is
  not an index.
\<close>

theorem ScalarReader_one_hot_float_counterexample:
  "dtype (ScalarReader ''x'' ''y'' None None (Some 5) :: unit scalar_reader) (Scalar (SInt 3))
      = Inr (SFloat (Fin 3))
   \<and> scalar_ge (SFloat (Fin 3)) 0 = Inr True
   \<and> scalar_ge (SFloat (Fin 3)) 5 = Inr False
   \<and> ScalarReader_call (ScalarReader ''x'' ''y'' None None (Some 5))
        [''x'' \<mapsto> Scalar (SInt 3) :: unit pyval] = Inl IndexError"
  by (simp add: ScalarReader_def ScalarReader_call_def dict_get_def one_hot_of_def np_zeros_def)

subsection \<open>An absent source field\<close>

text \<open>
  Claim C3. When the source field is absent, the invocation is the invocation on the
  row that stores the default value under the source field: the default is what the
  dtype coerces. A KeyError can only be one the dtype itself raised on the default, and
  with no class count the output is the coerced default.
\<close>

theorem ScalarReader_absent_default:
  assumes "row (row_key self) = None"
  shows "ScalarReader_call self row
           = ScalarReader_call self (row(row_key self \<mapsto> default_value self))
       \<and> (\<forall>k. ScalarReader_call self row = Inl (KeyError k)
              \<longrightarrow> dtype self (default_value self) = Inl (KeyError k))
       \<and> (\<forall>s. dtype self (default_value self) = Inr s \<and> one_hot_classes self = None
              \<longrightarrow> ScalarReader_call self row = Inr [dict_key self \<mapsto> Scalar s])"
proof -
  have get: "dict_get row (row_key self) (default_value self) = default_value self"
    using assms by (simp add: dict_get_def)
  have subst: "ScalarReader_call self row
           = ScalarReader_call self (row(row_key self \<mapsto> default_value self))"
    by (simp add: ScalarReader_call_def get) (simp add: dict_get_def)
  have nokey: "dtype self (default_value self) = Inl (KeyError k)"
    if "ScalarReader_call self row = Inl (KeyError k)" for k
    using ScalarReader_call_error [OF that] by (simp add: get)
  have plain: "ScalarReader_call self row = Inr [dict_key self \<mapsto> Scalar s]"
    if "dtype self (default_value self) = Inr s" "one_hot_classes self = None" for s
    using that by (simp add: ScalarReader_call_def get)
  from subst nokey plain show ?thesis by blast
qed

text \<open>The empty row with \<^verbatim>\<open>default_value=2.0\<close> and \<^verbatim>\<open>dtype=float\<close>.\<close>

theorem ScalarReader_absent_default_witness:
  "(Map.empty :: unit row) ''x'' = None
   \<and> ScalarReader_call
        (ScalarReader ''x'' ''y'' (Some float_dtype) (Some (Scalar (SFloat (Fin 2)))) None)
        (Map.empty :: unit row) = Inr [''y'' \<mapsto> Scalar (SFloat (Fin 2))]"
proof -
  let ?r = "ScalarReader ''x'' ''y'' (Some float_dtype) (Some (Scalar (SFloat (Fin 2)))) None
              :: unit scalar_reader"
  have absent: "(Map.empty :: unit row) (row_key ?r) = None" by simp
  have coerced: "dtype ?r (default_value ?r) = Inr (SFloat (Fin 2)) \<and> one_hot_classes ?r = None"
    by (simp add: ScalarReader_def)
  from ScalarReader_absent_default [OF absent] coerced
  have "ScalarReader_call ?r Map.empty = Inr [dict_key ?r \<mapsto> Scalar (SFloat (Fin 2))]"
    by blast
  then show ?thesis by (simp add: ScalarReader_def)
qed

text \<open>
  Claim C4 says that with no default and no class count an absent source field gives a
  null output value without a failure. The code hands the None of the missing default
  to the dtype: with \<^verbatim>\<open>dtype=int\<close> the empty row raises TypeError.
\<close>

theorem ScalarReader_absent_no_default_int:
  "ScalarReader_call (ScalarReader ''x'' ''y'' (Some int_dtype) None None) (Map.empty :: unit row)
     = Inl TypeError"
  by (simp add: ScalarReader_def ScalarReader_call_def dict_get_def)

subsection \<open>A negative scalar\<close>

text \<open>
  Claim C5. With a positive class count, a negative coerced scalar is not encoded: the
  output value is the scalar itself and nothing is raised.
\<close>

theorem ScalarReader_negative_bypass:
  assumes "one_hot_classes self = Some n" and "0 < n"
      and "dtype self (dict_get row (row_key self) (default_value self)) = Inr s"
      and "negative s"
    shows "ScalarReader_call self row = Inr [dict_key self \<mapsto> Scalar s]"
  using assms negative_ge [of s] by (simp add: ScalarReader_call_def)

text \<open>
  The row \<^verbatim>\<open>{"x": -1}\<close> with five classes: with the default dtype the output is the
  float -1.0, which Python compares equal to -1; with \<^verbatim>\<open>dtype=int\<close> it is the int -1.
\<close>

theorem ScalarReader_negative_bypass_witness:
  "ScalarReader_call (ScalarReader ''x'' ''y'' None None (Some 5))
       [''x'' \<mapsto> Scalar (SInt (- 1)) :: unit pyval]
     = Inr [''y'' \<mapsto> Scalar (SFloat (Fin (- 1)))]
   \<and> ScalarReader_call (ScalarReader ''x'' ''y'' (Some int_dtype) None (Some 5))
       [''x'' \<mapsto> Scalar (SInt (- 1)) :: unit pyval]
     = Inr [''y'' \<mapsto> Scalar (SInt (- 1))]"
proof -
  let ?row = "[''x'' \<mapsto> Scalar (SInt (- 1)) :: unit pyval]"
  let ?r = "ScalarReader ''x'' ''y'' None None (Some 5) :: unit scalar_reader"
  let ?q = "ScalarReader ''x'' ''y'' (Some int_dtype) None (Some 5) :: unit scalar_reader"
  have "ScalarReader_call ?r ?row = Inr [dict_key ?r \<mapsto> Scalar (SFloat (Fin (- 1)))]"
    by (rule ScalarReader_negative_bypass [where n = 5])
       (simp_all add: ScalarReader_def dict_get_def)
  moreover
  have "ScalarReader_call ?q ?row = Inr [dict_key ?q \<mapsto> Scalar (SInt (- 1))]"
    by (rule ScalarReader_negative_bypass [where n = 5])
       (simp_all add: ScalarReader_def dict_get_def)
  ultimately show ?thesis by (simp add: ScalarReader_def)
qed

subsection \<open>A scalar beyond the class count\<close>




subsection \<open>A source field that holds None\<close>

text \<open>
  Claim C10, as amended. When the row holds None under the source field, the default
  value plays no part (any other default gives the same invocation): None itself goes
  to the dtype. If the dtype raises on None, the invocation raises that error; if it
  returns a scalar and no class count is configured, the invocation returns that
  scalar under the output key.
\<close>

theorem ScalarReader_null_not_defaulted:
  assumes "row (row_key self) = Some (Scalar SNone)"
  shows "ScalarReader_call self row = ScalarReader_call (self\<lparr>default_value := d\<rparr>) row
       \<and> (\<forall>e. dtype self (Scalar SNone) = Inl e \<longrightarrow> ScalarReader_call self row = Inl e)
       \<and> (\<forall>s. dtype self (Scalar SNone) = Inr s \<and> one_hot_classes self = None
              \<longrightarrow> ScalarReader_call self row = Inr [dict_key self \<mapsto> Scalar s])"
  using assms
  by (auto simp: ScalarReader_call_def dict_get_def split: sum.splits option.splits bool.splits)

text \<open>
  The row \<^verbatim>\<open>{"x": None}\<close> with \<^verbatim>\<open>default_value=2.0\<close>: with \<^verbatim>\<open>dtype=float\<close> the TypeError
  of \<^verbatim>\<open>float(None)\<close>, with \<^verbatim>\<open>dtype=np.float32\<close> the output value nan.
\<close>

theorem ScalarReader_null_not_defaulted_witness:
  "ScalarReader_call
     (ScalarReader ''x'' ''y'' (Some float_dtype) (Some (Scalar (SFloat (Fin 2)))) None)
     [''x'' \<mapsto> Scalar SNone :: unit pyval] = Inl TypeError
   \<and> ScalarReader_call
     (ScalarReader ''x'' ''y'' (Some float32_dtype) (Some (Scalar (SFloat (Fin 2)))) None)
     [''x'' \<mapsto> Scalar SNone :: unit pyval] = Inr [''y'' \<mapsto> Scalar (SFloat NaN)]"
proof -
  let ?r = "ScalarReader ''x'' ''y'' (Some float_dtype) (Some (Scalar (SFloat (Fin 2)))) None
              :: unit scalar_reader"
  let ?q = "ScalarReader ''x'' ''y'' (Some float32_dtype) (Some (Scalar (SFloat (Fin 2)))) None
              :: unit scalar_reader"
  let ?row = "[''x'' \<mapsto> Scalar SNone :: unit pyval]"
  have r: "?row (row_key ?r) = Some (Scalar SNone)" by (simp add: ScalarReader_def)
  have q: "?row (row_key ?q) = Some (Scalar SNone)" by (simp add: ScalarReader_def)
  from ScalarReader_null_not_defaulted [of ?row ?r, OF r]
  have "dtype ?r (Scalar SNone) = Inl TypeError \<longrightarrow> ScalarReader_call ?r ?row = Inl TypeError"
    by blast
  then have 1: "ScalarReader_call ?r ?row = Inl TypeError" by (simp add: ScalarReader_def)
  from ScalarReader_null_not_defaulted [of ?row ?q, OF q]
  have "dtype ?q (Scalar SNone) = Inr (SFloat NaN) \<and> one_hot_classes ?q = None
          \<longrightarrow> ScalarReader_call ?q ?row = Inr [dict_key ?q \<mapsto> Scalar (SFloat NaN)]"
    by blast
  then have 2: "ScalarReader_call ?q ?row = Inr [''y'' \<mapsto> Scalar (SFloat NaN)]"
    by (simp add: ScalarReader_def)
  from 1 2 show ?thesis by simp
qed

text \<open>
  The claim as first stated has the invocation fail whenever the stored value is None.
  With the default dtype it does not: \<^verbatim>\<open>np.float32(None)\<close> is nan, and the row
  \<^verbatim>\<open>{"x": None}\<close> gives the output value nan, default or no default.
\<close>

theorem ScalarReader_null_float32_counterexample:
  "default_value (ScalarReader ''x'' ''y'' None (Some (Scalar (SFloat (Fin 2)))) None
                    :: unit scalar_reader) = Scalar (SFloat (Fin 2))
   \<and> ScalarReader_call (ScalarReader ''x'' ''y'' None (Some (Scalar (SFloat (Fin 2)))) None)
        [''x'' \<mapsto> Scalar SNone :: unit pyval] = Inr [''y'' \<mapsto> Scalar (SFloat NaN)]"
  by (simp add: ScalarReader_def ScalarReader_call_def dict_get_def)

section \<open>The text reader\<close>

text \<open>
  Claim C7. On a row that has the source field the invocation is the encode function's:
  its value under the output key, or the error it raises. On a row without the source
  field it is the KeyError of the lookup; nothing is substituted. A reader built with
  no encode function has the identity.
\<close>

theorem TextReader_call_cases:
  "(\<forall>v. row (row_key self) = Some v \<longrightarrow>
        TextReader_call self row
          = (case encode_fn self v of Inl e \<Rightarrow> Inl e | Inr t \<Rightarrow> Inr [dict_key self \<mapsto> t]))
   \<and> (row (row_key self) = None \<longrightarrow> TextReader_call self row = Inl (KeyError (row_key self)))
   \<and> encode_fn (TextReader rk dk None :: 'a text_reader) = Inr"
  by (auto simp: TextReader_call_def dict_item_def TextReader_def)

lemma upper_hello: "map char_upper ''hello'' = ''HELLO''"
  by code_simp

text \<open>
  The row \<^verbatim>\<open>{"t": "hello"}\<close> and the empty row with \<^verbatim>\<open>str.upper\<close>, and the first
  again with the default encode function.
\<close>

theorem TextReader_call_cases_witness:
  "TextReader_call (TextReader ''t'' ''enc'' (Some str_upper))
       [''t'' \<mapsto> Scalar (SStr ''hello'') :: unit pyval]
     = Inr [''enc'' \<mapsto> Scalar (SStr ''HELLO'')]
   \<and> TextReader_call (TextReader ''t'' ''enc'' (Some str_upper)) (Map.empty :: unit row)
     = Inl (KeyError ''t'')
   \<and> TextReader_call (TextReader ''t'' ''enc'' None)
       [''t'' \<mapsto> Scalar (SStr ''hello'') :: unit pyval]
     = Inr [''enc'' \<mapsto> Scalar (SStr ''hello'')]"
proof -
  let ?r = "TextReader ''t'' ''enc'' (Some str_upper) :: unit text_reader"
  let ?i = "TextReader ''t'' ''enc'' None :: unit text_reader"
  let ?row = "[''t'' \<mapsto> Scalar (SStr ''hello'') :: unit pyval]"
  note c = TextReader_call_cases [of ?row ?r "''t''" "''enc''"]
  note d = TextReader_call_cases [of Map.empty ?r "''t''" "''enc''"]
  note i = TextReader_call_cases [of ?row ?i "''t''" "''enc''"]
  have up: "str_upper (Scalar (SStr ''hello'') :: unit pyval) = Inr (Scalar (SStr ''HELLO''))"
    by (simp only: str_upper.simps upper_hello)
  have "TextReader_call ?r ?row = Inr [''enc'' \<mapsto> Scalar (SStr ''HELLO'')]"
    using c up by (simp add: TextReader_def)
  moreover have "TextReader_call ?r Map.empty = Inl (KeyError ''t'')"
    using d by (simp add: TextReader_def)
  moreover have "TextReader_call ?i ?row = Inr [''enc'' \<mapsto> Scalar (SStr ''hello'')]"
    using i by (simp add: TextReader_def)
  ultimately show ?thesis by simp
qed

section \<open>The composition\<close>

subsection \<open>Merging in order\<close>

lemma last_write_Nil: "last_write [] = Map.empty"
  by (rule ext) (simp add: last_write_def)

lemma last_write_alt:
  "last_write ds k =
     (if filter (\<lambda>d. d k \<noteq> None) ds = [] then None
      else last (filter (\<lambda>d. d k \<noteq> None) ds) k)"
  by (cases "filter (\<lambda>d. d k \<noteq> None) ds") (simp_all add: last_write_def)

lemma last_write_snoc: "last_write (ds @ [d]) = last_write ds ++ d"
proof (rule ext)
  fix k
  show "last_write (ds @ [d]) k = (last_write ds ++ d) k"
  proof (cases "d k")
    case None
    then show ?thesis by (simp add: last_write_alt map_add_def)
  next
    case (Some v)
    then show ?thesis by (simp add: last_write_alt map_add_def)
  qed
qed

lemma run_readers_merge:
  assumes "list_all2 (\<lambda>fn d. reader_call L fn row = Inr d) rs ds"
  shows "run_readers L rs row (last_write pre) = Inr (last_write (pre @ ds))"
  using assms
proof (induction rs ds arbitrary: pre rule: list_all2_induct)
  case Nil
  then show ?case by simp
next
  case (Cons fn rs d ds)
  from Cons.IH [of "pre @ [d]"] Cons.hyps(1) show ?case
    by (simp add: last_write_snoc)
qed

lemma run_mixins_merge:
  assumes "length es = length ms"
      and "\<forall>j<length ms. (ms ! j) (last_write (pre @ take j es)) = Inr (es ! j)"
    shows "run_mixins ms (last_write pre) = Inr (last_write (pre @ es))"
  using assms
proof (induction ms arbitrary: es pre)
  case Nil
  then show ?case by simp
next
  case (Cons fn ms)
  then obtain e es' where es: "es = e # es'" by (cases es) auto
  from Cons.prems(2) [rule_format, of 0] es have first: "fn (last_write pre) = Inr e" by simp
  have len: "length es' = length ms" using Cons.prems(1) es by simp
  have rest: "\<forall>j<length ms. (ms ! j) (last_write ((pre @ [e]) @ take j es')) = Inr (es' ! j)"
  proof (intro allI impI)
    fix j assume "j < length ms"
    with Cons.prems(2) [rule_format, of "Suc j"] es
    show "(ms ! j) (last_write ((pre @ [e]) @ take j es')) = Inr (es' ! j)" by simp
  qed
  from Cons.IH [OF len rest] first es show ?case
    by (simp add: last_write_snoc)
qed

text \<open>
  Claim C1. Let every reader return on the row, \<open>ds\<close> being the dicts they return in
  list order, and let every mixin return on the mapping merged so far (the readers'
  dicts and the dicts of the mixins before it), \<open>es\<close> being the dicts the mixins
  return. Then the invocation returns the last write of \<open>ds\<close> followed by \<open>es\<close>:
  it starts from the empty mapping, and under each key the latest dict that has the
  key wins.
\<close>

theorem ReaderCompose_call_merge:
  assumes "length ds = length rs"
      and "\<forall>i<length rs. reader_call L (rs ! i) row = Inr (ds ! i)"
      and "length es = length ms"
      and "\<forall>j<length ms. (ms ! j) (last_write (ds @ take j es)) = Inr (es ! j)"
    shows "ReaderCompose_call L \<lparr>readers = rs, mixins = ms\<rparr> row = Inr (last_write (ds @ es))"
proof -
  have "list_all2 (\<lambda>fn d. reader_call L fn row = Inr d) rs ds"
    using assms(1,2) by (simp add: list_all2_conv_all_nth)
  from run_readers_merge [OF this, of "[]"]
  have "run_readers L rs row Map.empty = Inr (last_write ds)"
    by (simp add: last_write_Nil)
  moreover from run_mixins_merge [OF assms(3,4)]
  have "run_mixins ms (last_write ds) = Inr (last_write (ds @ es))" .
  ultimately show ?thesis by (simp add: ReaderCompose_call_def)
qed

lemma last_write_two_same: "last_write [[k \<mapsto> v], [k \<mapsto> w]] = [k \<mapsto> w]"
  by (rule ext) (simp add: last_write_def)

lemma last_write_example:
  "last_write [[''out'' \<mapsto> u], [''out'' \<mapsto> v], [''copy'' \<mapsto> w]] = [''out'' \<mapsto> v, ''copy'' \<mapsto> w]"
  by (rule ext) (simp add: last_write_def)

text \<open>
  Two scalar readers that write the same key, on the row \<^verbatim>\<open>{"a": 1, "b": 2}\<close>: the
  output holds the second reader's value, the float 2.0 of the default dtype, which
  Python compares equal to 2. With the mixin \<^verbatim>\<open>lambda d: {"copy": d["out"]}\<close> added,
  the mixin finds the key \<^verbatim>\<open>out\<close>, which the merged mapping has and the row has not.
\<close>

theorem ReaderCompose_call_merge_witness:
  "ReaderCompose_call no_files
     (ReaderCompose [ScalarR (ScalarReader ''a'' ''out'' None None None),
                     ScalarR (ScalarReader ''b'' ''out'' None None None)] None)
     [''a'' \<mapsto> Scalar (SInt 1), ''b'' \<mapsto> Scalar (SInt 2) :: unit pyval]
   = Inr [''out'' \<mapsto> Scalar (SFloat (Fin 2))]
   \<and> ReaderCompose_call no_files
     (ReaderCompose [ScalarR (ScalarReader ''a'' ''out'' None None None),
                     ScalarR (ScalarReader ''b'' ''out'' None None None)] (Some [copy_out]))
     [''a'' \<mapsto> Scalar (SInt 1), ''b'' \<mapsto> Scalar (SInt 2) :: unit pyval]
   = Inr [''out'' \<mapsto> Scalar (SFloat (Fin 2)), ''copy'' \<mapsto> Scalar (SFloat (Fin 2))]"
proof -
  let ?row = "[''a'' \<mapsto> Scalar (SInt 1), ''b'' \<mapsto> Scalar (SInt 2) :: unit pyval]"
  let ?rs = "[ScalarR (ScalarReader ''a'' ''out'' None None None),
              ScalarR (ScalarReader ''b'' ''out'' None None None)] :: unit reader list"
  let ?ds = "[[''out'' \<mapsto> Scalar (SFloat (Fin 1))], [''out'' \<mapsto> Scalar (SFloat (Fin 2))]]
               :: unit row list"
  let ?es = "[[''copy'' \<mapsto> Scalar (SFloat (Fin 2))]] :: unit row list"
  have readers: "\<forall>i<length ?rs. reader_call no_files (?rs ! i) ?row = Inr (?ds ! i)"
  proof (intro allI impI)
    fix i assume "i < length ?rs"
    then consider "i = 0" | "i = 1" by fastforce
    then show "reader_call no_files (?rs ! i) ?row = Inr (?ds ! i)"
      by cases (simp_all add: ScalarReader_def ScalarReader_call_def dict_get_def)
  qed
  have "ReaderCompose_call no_files \<lparr>readers = ?rs, mixins = []\<rparr> ?row
          = Inr (last_write (?ds @ []))"
    by (rule ReaderCompose_call_merge) (use readers in simp_all)
  moreover
  have "ReaderCompose_call no_files \<lparr>readers = ?rs, mixins = [copy_out]\<rparr> ?row
          = Inr (last_write (?ds @ ?es))"
  proof (rule ReaderCompose_call_merge)
    show "\<forall>j<length [copy_out :: unit mixin].
            ([copy_out] ! j) (last_write (?ds @ take j ?es)) = Inr (?es ! j)"
      by (simp add: last_write_two_same copy_out_def dict_item_def)
  qed (use readers in simp_all)
  ultimately show ?thesis
    by (simp add: ReaderCompose_def last_write_two_same last_write_example)
qed

subsection \<open>The first error\<close>

lemma trace_readers_snd: "snd (trace_readers L rs row i acc) = run_readers L rs row acc"
  by (induction rs arbitrary: i acc) (simp_all add: split_beta split: sum.splits)

lemma trace_mixins_snd: "snd (trace_mixins ms j acc) = run_mixins ms acc"
  by (induction ms arbitrary: j acc) (simp_all add: split_beta split: sum.splits)

lemma ReaderCompose_trace_snd:
  "snd (ReaderCompose_trace L c row) = ReaderCompose_call L c row"
proof (cases "trace_readers L (readers c) row 0 Map.empty")
  case (Pair t r)
  with trace_readers_snd [of L "readers c" row 0 Map.empty]
  have r: "run_readers L (readers c) row Map.empty = r" by simp
  show ?thesis
  proof (cases r)
    case (Inl e)
    with Pair r show ?thesis by (simp add: ReaderCompose_trace_def ReaderCompose_call_def)
  next
    case (Inr m)
    with Pair r trace_mixins_snd [of "mixins c" 0 m] show ?thesis
      by (simp add: ReaderCompose_trace_def ReaderCompose_call_def split_beta)
  qed
qed

lemma run_readers_all_ok:
  assumes "\<forall>r\<in>set rs. \<exists>d. reader_call L r row = Inr d"
  shows "\<exists>m. run_readers L rs row acc = Inr m"
  using assms by (induction rs arbitrary: acc) auto

lemma trace_readers_ok:
  "run_readers L rs row acc = Inr m \<Longrightarrow>
   trace_readers L rs row i acc = (map ReaderAt [i..<i + length rs], Inr m)"
proof (induction rs arbitrary: i acc)
  case Nil
  then show ?case by simp
next
  case (Cons fn rs)
  then obtain d where d: "reader_call L fn row = Inr d" 
    and rest: "run_readers L rs row (acc ++ d) = Inr m"
    by (auto split: sum.splits)
  from Cons.IH [OF rest, of "Suc i"] d show ?case
    by (simp add: upt_conv_Cons del: upt_Suc)
qed

lemma trace_readers_fail:
  "run_readers L rs1 row acc = Inr m \<Longrightarrow> reader_call L fn row = Inl e \<Longrightarrow>
   trace_readers L (rs1 @ fn # rs2) row i acc = (map ReaderAt [i..<Suc (i + length rs1)], Inl e)"
proof (induction rs1 arbitrary: i acc)
  case Nil
  then show ?case by simp
next
  case (Cons r rs1)
  then obtain d where d: "reader_call L r row = Inr d" 
    and rest: "run_readers L rs1 row (acc ++ d) = Inr m"
    by (auto split: sum.splits)
  from Cons.IH [OF rest Cons.prems(2), of "Suc i"] d show ?case
    by (simp add: upt_conv_Cons del: upt_Suc)
qed

lemma trace_mixins_fail:
  "run_mixins ms1 acc = Inr m \<Longrightarrow> g m = Inl e \<Longrightarrow>
   trace_mixins (ms1 @ g # ms2) j acc = (map MixinAt [j..<Suc (j + length ms1)], Inl e)"
proof (induction ms1 arbitrary: j acc)
  case Nil
  then show ?case by simp
next
  case (Cons f ms1)
  then obtain d where d: "f acc = Inr d" 
    and rest: "run_mixins ms1 (acc ++ d) = Inr m"
    by (auto split: sum.splits)
  from Cons.IH [OF rest Cons.prems(2), of "Suc j"] d show ?case
    by (simp add: upt_conv_Cons del: upt_Suc)
qed

lemma collaborator_fails_call:
  "collaborator_fails L fn row e \<Longrightarrow> reader_call L fn row = Inl e"
  by (cases fn)
     (auto simp: ImageReader_call_def ScalarReader_call_def TextReader_call_def dict_item_def
        split: option.splits)

lemma ReaderCompose_reader_fails:
  assumes "\<forall>r\<in>set rs1. \<exists>d. reader_call L r row = Inr d"
      and "reader_call L fn row = Inl e"
    shows "ReaderCompose_call L \<lparr>readers = rs1 @ fn # rs2, mixins = ms\<rparr> row = Inl e
         \<and> ReaderCompose_trace L \<lparr>readers = rs1 @ fn # rs2, mixins = ms\<rparr> row
             = (map ReaderAt [0..<Suc (length rs1)], Inl e)"
proof -
  from assms(1) obtain m0 where m0: "run_readers L rs1 row Map.empty = Inr m0"
    using run_readers_all_ok [of rs1 L row Map.empty] by blast
  from trace_readers_fail [OF m0 assms(2), of rs2 0]
  have t: "ReaderCompose_trace L \<lparr>readers = rs1 @ fn # rs2, mixins = ms\<rparr> row
        = (map ReaderAt [0..<Suc (length rs1)], Inl e)"
    by (simp add: ReaderCompose_trace_def)
  from ReaderCompose_trace_snd [of L "\<lparr>readers = rs1 @ fn # rs2, mixins = ms\<rparr>" row] t
  show ?thesis by simp
qed

lemma ReaderCompose_mixin_fails:
  assumes "run_readers L rs row Map.empty = Inr m" and "run_mixins ms1 m = Inr m'"
      and "g m' = Inl e"
    shows "ReaderCompose_call L \<lparr>readers = rs, mixins = ms1 @ g # ms2\<rparr> row = Inl e
         \<and> ReaderCompose_trace L \<lparr>readers = rs, mixins = ms1 @ g # ms2\<rparr> row
             = (map ReaderAt [0..<length rs] @ map MixinAt [0..<Suc (length ms1)], Inl e)"
proof -
  from trace_readers_ok [OF assms(1), of 0] trace_mixins_fail [of ms1 m m' g e ms2 0] assms(2,3)
  have t: "ReaderCompose_trace L \<lparr>readers = rs, mixins = ms1 @ g # ms2\<rparr> row
        = (map ReaderAt [0..<length rs] @ map MixinAt [0..<Suc (length ms1)], Inl e)"
    by (simp add: ReaderCompose_trace_def)
  from ReaderCompose_trace_snd [of L "\<lparr>readers = rs, mixins = ms1 @ g # ms2\<rparr>" row] t
  show ?thesis by simp
qed

text \<open>
  Claim C8. When the readers before one return and that one raises, the invocation
  raises that same error whatever readers and mixins come after it, and the callables
  reached are the readers up to and including the failing one. So it is when what
  raises is the reader's collaborator: the error of the image decoder, of the dtype or
  of the encode function is the reader's error and the invocation's. When all readers
  return, the mixins before one return and that one raises on the mapping merged so
  far, the invocation raises that error, and the callables reached are all readers and
  the mixins up to and including the failing one. In each case the result is the
  error: there is no mapping. The recording invocation returns what the invocation
  returns.
\<close>

theorem ReaderCompose_first_error:
  "((\<forall>r\<in>set rs1. \<exists>d. reader_call L r row = Inr d) \<and> reader_call L fn row = Inl e \<longrightarrow>
      ReaderCompose_call L \<lparr>readers = rs1 @ fn # rs2, mixins = ms\<rparr> row = Inl e
    \<and> ReaderCompose_trace L \<lparr>readers = rs1 @ fn # rs2, mixins = ms\<rparr> row
        = (map ReaderAt [0..<Suc (length rs1)], Inl e))
 \<and> ((\<forall>r\<in>set rs1. \<exists>d. reader_call L r row = Inr d) \<and> collaborator_fails L fn row e \<longrightarrow>
      reader_call L fn row = Inl e
    \<and> ReaderCompose_call L \<lparr>readers = rs1 @ fn # rs2, mixins = ms\<rparr> row = Inl e
    \<and> ReaderCompose_trace L \<lparr>readers = rs1 @ fn # rs2, mixins = ms\<rparr> row
        = (map ReaderAt [0..<Suc (length rs1)], Inl e))
 \<and> (run_readers L rs row Map.empty = Inr m \<and> run_mixins ms1 m = Inr m' \<and> g m' = Inl e' \<longrightarrow>
      ReaderCompose_call L \<lparr>readers = rs, mixins = ms1 @ g # ms2\<rparr> row = Inl e'
    \<and> ReaderCompose_trace L \<lparr>readers = rs, mixins = ms1 @ g # ms2\<rparr> row
        = (map ReaderAt [0..<length rs] @ map MixinAt [0..<Suc (length ms1)], Inl e'))
 \<and> snd (ReaderCompose_trace L c row) = ReaderCompose_call L c row"
  using ReaderCompose_reader_fails [of rs1 L row fn e rs2 ms]
    ReaderCompose_mixin_fails [of L rs row m ms1 m' g e' ms2]
    collaborator_fails_call [of L fn row e]
    ReaderCompose_trace_snd [of L c row]
  by blast

text \<open>
  Two image readers, a scalar reader and a mixin, where only the first image file
  exists: the first reader returns, the decoder's error on the second file is the
  result, and the scalar reader and the mixin were not called. A mixin that looks up a
  key the merged mapping lacks, before a second mixin: its KeyError is the result, and
  the second mixin was not called.
\<close>

theorem ReaderCompose_first_error_witness:
  "ReaderCompose_call (one_file (Array []))
     (ReaderCompose [ImageR (ImageReader ''first'' ''img1'' None None),
                     ImageR (ImageReader ''second'' ''img2'' None None),
                     ScalarR (ScalarReader ''x'' ''y'' None None None)] (Some [copy_out]))
     [''first'' \<mapsto> Scalar (SStr ''a.png''), ''second'' \<mapsto> Scalar (SStr ''b.png''),
      ''x'' \<mapsto> Scalar (SInt 1) :: unit pyval]
   = Inl (External ''FileNotFoundError'')
   \<and> ReaderCompose_trace (one_file (Array []))
     (ReaderCompose [ImageR (ImageReader ''first'' ''img1'' None None),
                     ImageR (ImageReader ''second'' ''img2'' None None),
                     ScalarR (ScalarReader ''x'' ''y'' None None None)] (Some [copy_out]))
     [''first'' \<mapsto> Scalar (SStr ''a.png''), ''second'' \<mapsto> Scalar (SStr ''b.png''),
      ''x'' \<mapsto> Scalar (SInt 1) :: unit pyval]
   = ([ReaderAt 0, ReaderAt 1], Inl (External ''FileNotFoundError''))
   \<and> ReaderCompose_call no_files
     (ReaderCompose [ScalarR (ScalarReader ''x'' ''y'' None None None)] (Some [copy_out, copy_out]))
     [''x'' \<mapsto> Scalar (SInt 1) :: unit pyval]
   = Inl (KeyError ''out'')
   \<and> ReaderCompose_trace no_files
     (ReaderCompose [ScalarR (ScalarReader ''x'' ''y'' None None None)] (Some [copy_out, copy_out]))
     [''x'' \<mapsto> Scalar (SInt 1) :: unit pyval]
   = ([ReaderAt 0, MixinAt 0], Inl (KeyError ''out''))"
proof -
  let ?L = "one_file (Array []) :: unit lib"
  let ?row = "[''first'' \<mapsto> Scalar (SStr ''a.png''), ''second'' \<mapsto> Scalar (SStr ''b.png''),
               ''x'' \<mapsto> Scalar (SInt 1) :: unit pyval]"
  let ?img1 = "ImageR (ImageReader ''first'' ''img1'' None None) :: unit reader"
  let ?img2 = "ImageR (ImageReader ''second'' ''img2'' None None) :: unit reader"
  let ?sc = "ScalarR (ScalarReader ''x'' ''y'' None None None) :: unit reader"
  let ?row' = "[''x'' \<mapsto> Scalar (SInt 1) :: unit pyval]"
  let ?m = "[''y'' \<mapsto> Scalar (SFloat (Fin 1))] :: unit row"
  let ?e = "External ''FileNotFoundError''"
  have first: "\<forall>r\<in>set [?img1]. \<exists>d. reader_call ?L r ?row = Inr d"
    by (simp add: ImageReader_def ImageReader_call_def dict_item_def one_file_def)
  have second: "collaborator_fails ?L ?img2 ?row ?e"
    by (simp add: ImageReader_def one_file_def)
  have sc: "run_readers no_files [?sc] ?row' Map.empty = Inr ?m"
    by (simp add: ScalarReader_def ScalarReader_call_def dict_get_def)
  have mx: "run_mixins [] ?m = Inr ?m" "copy_out ?m = Inl (KeyError ''out'')"
    by (simp_all add: copy_out_def dict_item_def)
  note a = ReaderCompose_first_error [where L = ?L and row = ?row and ?rs1.0 = "[?img1]"
      and fn = ?img2 and e = ?e and ?rs2.0 = "[?sc]" and ms = "[copy_out]"]
  note b = ReaderCompose_first_error [where L = no_files and row = ?row' and rs = "[?sc]"
      and m = ?m and ?ms1.0 = "[]" and m' = ?m and g = copy_out and e' = "KeyError ''out''"
      and ?ms2.0 = "[copy_out]"]
  from a first second have
    "ReaderCompose_call ?L \<lparr>readers = [?img1, ?img2, ?sc], mixins = [copy_out]\<rparr> ?row = Inl ?e
     \<and> ReaderCompose_trace ?L \<lparr>readers = [?img1, ?img2, ?sc], mixins = [copy_out]\<rparr> ?row
       = ([ReaderAt 0, ReaderAt 1], Inl ?e)"
    by simp
  moreover from b sc mx have
    "ReaderCompose_call no_files \<lparr>readers = [?sc], mixins = [copy_out, copy_out]\<rparr> ?row'
       = Inl (KeyError ''out'')
     \<and> ReaderCompose_trace no_files \<lparr>readers = [?sc], mixins = [copy_out, copy_out]\<rparr> ?row'
       = ([ReaderAt 0, MixinAt 0], Inl (KeyError ''out''))"
    by simp
  ultimately show ?thesis by (simp add: ReaderCompose_def)
qed

section \<open>The readers, the row and the objects of the row\<close>

subsection \<open>Keeping a world\<close>

lemma keeps_refl: "keeps s s"
  by (simp add: keeps_def)

lemma keeps_trans:
  assumes "keeps a b" and "keeps b c"
  shows "keeps a c"
proof -
  from assms have ab: "take (length (heap a)) (heap b) = heap a"
    and bc: "take (length (heap b)) (heap c) = heap b"
    by (simp_all add: keeps_def)
  from ab have "length (take (length (heap a)) (heap b)) = length (heap a)" by simp
  then have le: "length (heap a) \<le> length (heap b)" by simp
  have "take (length (heap a)) (heap c) = take (length (heap a)) (take (length (heap b)) (heap c))"
    using le by (simp add: min_def)
  also have "\<dots> = heap a" using ab bc by simp
  finally show ?thesis using assms by (simp add: keeps_def)
qed

lemma keeps_and_then:
  assumes "keeps s0 s"
      and "\<And>s. keeps s0 s \<Longrightarrow> keeps s0 (fst (m s))"
      and "\<And>x s'. keeps s0 s' \<Longrightarrow> keeps s0 (fst (f x s'))"
    shows "keeps s0 (fst (and_then m f s))"
proof (cases "m s")
  case (Pair s' r)
  with assms(2) [OF assms(1)] have k: "keeps s0 s'" by simp
  show ?thesis
  proof (cases r)
    case (Inl e)
    with Pair k show ?thesis by (simp add: and_then_def)
  next
    case (Inr x)
    with Pair assms(3) [OF k, of x] show ?thesis by (simp add: and_then_def)
  qed
qed

lemma keeps_simple:
  "keeps s0 s \<Longrightarrow> keeps s0 (fst (attribute f s))"
  "keeps s0 s \<Longrightarrow> keeps s0 (fst (row_item k s))"
  "keeps s0 s \<Longrightarrow> keeps s0 (fst (row_get k d s))"
  "keeps s0 s \<Longrightarrow> keeps s0 (fst (done_with x s))"
  "keeps s0 s \<Longrightarrow> keeps s0 (fst (compute r s))"
  by (simp_all add: attribute_def row_item_def row_get_def done_with_def compute_def)

lemma keeps_new_object:
  assumes "keeps s0 s"
  shows "keeps s0 (fst (new_object v s))"
proof -
  have "keeps s (fst (new_object v s))" by (simp add: new_object_def keeps_def)
  with assms show ?thesis by (rule keeps_trans)
qed

lemma keeps_one_hot_steps:
  assumes "keeps s0 s"
  shows "keeps s0 (fst (one_hot_steps classes scalar s))"
proof -
  have "keeps s (fst (one_hot_steps classes scalar s))"
    by (auto simp: one_hot_steps_def and_then_def compute_def new_object_def set_item_def
        done_with_def keeps_def split: option.splits sum.splits bool.splits)
  with assms show ?thesis by (rule keeps_trans)
qed

lemma keeps_callee:
  assumes "\<forall>s. keeps s (fst (c s))" and "keeps s0 s"
  shows "keeps s0 (fst (c s))"
proof -
  from assms(1) have "keeps s (fst (c s))" by simp
  with assms(2) show ?thesis by (rule keeps_trans)
qed

text \<open>
  Claim C9, as amended. If the callables a reader calls (\<^verbatim>\<open>str\<close> and the image decoder,
  the dtype, the encode function) keep the world, whatever they are called on, then each
  of the three methods keeps the world, whether it returns or raises: the reader's
  attributes and the row are the same after the invocation, and so is every object
  that existed before it.
\<close>

theorem readers_keep_objects:
  assumes "\<forall>v s. keeps s (fst (str_c v s))"
      and "\<forall>name dp gs s. keeps s (fst (read_c name dp gs s))"
      and "\<forall>v s. keeps s (fst (dtype_c v s))"
      and "\<forall>v s. keeps s (fst (encode_c v s))"
    shows "keeps s1 (fst (ImageReader_steps str_c read_c s1))
         \<and> keeps s2 (fst (ScalarReader_steps dtype_c s2))
         \<and> keeps s3 (fst (TextReader_steps encode_c s3))"
proof (intro conjI)
  have str: "keeps s0 (fst (str_c v s))" if "keeps s0 s" for s0 v s
    using assms(1) that by (intro keeps_callee [where c = "str_c v"]) simp_all
  have rd: "keeps s0 (fst (read_c name dp gs s))" if "keeps s0 s" for s0 name dp gs s
    using assms(2) that by (intro keeps_callee [where c = "read_c name dp gs"]) simp_all
  have dt: "keeps s0 (fst (dtype_c v s))" if "keeps s0 s" for s0 v s
    using assms(3) that by (intro keeps_callee [where c = "dtype_c v"]) simp_all
  have en: "keeps s0 (fst (encode_c v s))" if "keeps s0 s" for s0 v s
    using assms(4) that by (intro keeps_callee [where c = "encode_c v"]) simp_all
  have "keeps s0 (fst (ImageReader_steps str_c read_c s))" if k: "keeps s0 s" for s0 s
    unfolding ImageReader_steps_def
    by (intro keeps_and_then keeps_simple str rd k; assumption)
  from this [OF keeps_refl] show "keeps s1 (fst (ImageReader_steps str_c read_c s1))" .
  have "keeps s0 (fst (ScalarReader_steps dtype_c s))" if k: "keeps s0 s" for s0 s
    unfolding ScalarReader_steps_def
    by (intro keeps_and_then keeps_simple keeps_one_hot_steps dt k; assumption)
  from this [OF keeps_refl] show "keeps s2 (fst (ScalarReader_steps dtype_c s2))" .
  have "keeps s0 (fst (TextReader_steps encode_c s))" if k: "keeps s0 s" for s0 s
    unfolding TextReader_steps_def
    by (intro keeps_and_then keeps_simple en k; assumption)
  from this [OF keeps_refl] show "keeps s3 (fst (TextReader_steps encode_c s3))" .
qed

subsection \<open>The steps and the methods on values\<close>

text \<open>
  With callees that only read the object they are handed, the steps return, as dicts of
  values, what the methods on values return.
\<close>

lemma keeps_value_callee: "keeps s (fst (value_callee f a s))"
  by (simp add: value_callee_def keeps_def)

lemma keeps_object_callee: "keeps s (fst (object_callee f a s))"
  by (auto simp: object_callee_def value_callee_def and_then_def new_object_def keeps_def
      split: sum.splits)

lemma keeps_decoder_callee: "keeps s (fst (decoder_callee L name dp gs s))"
  by (auto simp: decoder_callee_def compute_def and_then_def new_object_def keeps_def
      split: sum.splits)

lemma keeps_same_object: "keeps s (fst (same_object a s))"
  by (simp add: same_object_def done_with_def keeps_def)

lemmas step_defs = and_then_def done_with_def attribute_def row_item_def row_get_def
  compute_def new_object_def set_item_def value_callee_def object_callee_def decoder_callee_def

lemma TextReader_steps_value:
  assumes "\<forall>k a. row_obj s k = Some a \<longrightarrow> a < length (heap s)"
  shows "(case TextReader_steps (object_callee f) s of (s', r) \<Rightarrow> map_sum id (view (heap s')) r)
       = TextReader_call \<lparr>row_key = row_key (self_obj s), dict_key = dict_key (self_obj s),
                          encode_fn = f\<rparr> (view (heap s) (row_obj s))"
proof (cases "row_obj s (row_key (self_obj s))")
  case None
  then show ?thesis
    by (simp add: TextReader_steps_def TextReader_call_def step_defs dict_item_def view_def)
next
  case (Some a)
  with assms have "a < length (heap s)" by blast
  with Some show ?thesis
    by (cases "f (heap s ! a)")
       (simp_all add: TextReader_steps_def TextReader_call_def step_defs dict_item_def view_def
          fun_eq_iff)
qed

lemma ImageReader_steps_value:
  assumes "\<forall>k a. row_obj s k = Some a \<longrightarrow> a < length (heap s)"
  shows "(case ImageReader_steps (value_callee (\<lambda>v. Inr (py_str L v))) (decoder_callee L) s of
            (s', r) \<Rightarrow> map_sum id (view (heap s')) r)
       = ImageReader_call L (self_obj s) (view (heap s) (row_obj s))"
proof (cases "row_obj s (row_key (self_obj s))")
  case None
  then show ?thesis
    by (simp add: ImageReader_steps_def ImageReader_call_def step_defs dict_item_def view_def)
next
  case (Some a)
  with assms have "a < length (heap s)" by blast
  with Some show ?thesis
    by (cases "read_image L (py_str L (heap s ! a)) (datapath (self_obj s)) (grayscale (self_obj s))")
       (simp_all add: ImageReader_steps_def ImageReader_call_def step_defs dict_item_def view_def
          fun_eq_iff)
qed


lemma one_hot_steps_value:
  "(case one_hot_steps classes scalar s of (s', r) \<Rightarrow> map_sum id (\<lambda>a. view (heap s') [dk \<mapsto> a]) r)
     = (case classes of
          None \<Rightarrow> Inr [dk \<mapsto> Scalar scalar]
        | Some n \<Rightarrow>
            if scalar = SNone then Inr [dk \<mapsto> Scalar scalar]
            else (case scalar_ge scalar 0 of
                    Inl e \<Rightarrow> Inl e
                  | Inr False \<Rightarrow> Inr [dk \<mapsto> Scalar scalar]
                  | Inr True \<Rightarrow>
                      (case one_hot_of n scalar of
                         Inl e \<Rightarrow> Inl e
                       | Inr one_hot \<Rightarrow> Inr [dk \<mapsto> Array one_hot])))"
  by (auto simp: one_hot_steps_def one_hot_of_def step_defs view_def fun_eq_iff
      split: option.splits sum.splits bool.splits)

lemma one_hot_steps_self: "self_obj (fst (one_hot_steps classes scalar s)) = self_obj s"
  by (auto simp: one_hot_steps_def step_defs split: option.splits sum.splits bool.splits)

lemma ScalarReader_steps_value:
  assumes "\<forall>k a. row_obj s k = Some a \<longrightarrow> a < length (heap s)"
      and "default_ref (self_obj s) < length (heap s)"
  shows "(case ScalarReader_steps (value_callee dt) s of (s', r) \<Rightarrow> map_sum id (view (heap s')) r)
       = ScalarReader_call
           \<lparr>row_key = row_key (self_obj s), dict_key = dict_key (self_obj s), dtype = dt,
            default_value = heap s ! default_ref (self_obj s),
            one_hot_classes = class_count (self_obj s)\<rparr>
           (view (heap s) (row_obj s))"
proof -
  let ?a = "dict_get (row_obj s) (row_key (self_obj s)) (default_ref (self_obj s))"
  have a: "?a < length (heap s)"
    using assms by (auto simp: dict_get_def split: option.splits)
  have v: "dict_get (view (heap s) (row_obj s)) (row_key (self_obj s))
             (heap s ! default_ref (self_obj s)) = heap s ! ?a"
    using assms by (auto simp: dict_get_def view_def split: option.splits)
  show ?thesis
  proof (cases "dt (heap s ! ?a)")
    case (Inl e)
    with a v show ?thesis
      by (simp add: ScalarReader_steps_def ScalarReader_call_def and_then_def attribute_def
          row_get_def value_callee_def)
  next
    case (Inr scalar)
    obtain s' r where run: "one_hot_steps (class_count (self_obj s)) scalar s = (s', r)"
      by (cases "one_hot_steps (class_count (self_obj s)) scalar s")
    from one_hot_steps_self [of "class_count (self_obj s)" scalar s] run
    have self: "self_obj s' = self_obj s" by simp
    from one_hot_steps_value [where classes = "class_count (self_obj s)" and scalar = scalar
        and s = s and dk = "dict_key (self_obj s)"] run
    have val: "map_sum id (\<lambda>a. view (heap s') [dict_key (self_obj s) \<mapsto> a]) r
        = (case class_count (self_obj s) of
          None \<Rightarrow> Inr [dict_key (self_obj s) \<mapsto> Scalar scalar]
        | Some n \<Rightarrow>
            if scalar = SNone then Inr [dict_key (self_obj s) \<mapsto> Scalar scalar]
            else (case scalar_ge scalar 0 of
                    Inl e \<Rightarrow> Inl e
                  | Inr False \<Rightarrow> Inr [dict_key (self_obj s) \<mapsto> Scalar scalar]
                  | Inr True \<Rightarrow>
                      (case one_hot_of n scalar of
                         Inl e \<Rightarrow> Inl e
                       | Inr one_hot \<Rightarrow> Inr [dict_key (self_obj s) \<mapsto> Array one_hot])))"
      by simp
    have "(case ScalarReader_steps (value_callee dt) s of (s', r) \<Rightarrow> map_sum id (view (heap s')) r)
        = map_sum id (\<lambda>a. view (heap s') [dict_key (self_obj s) \<mapsto> a]) r"
      using a Inr run self
      by (cases r)
         (simp_all add: ScalarReader_steps_def and_then_def attribute_def row_get_def
            value_callee_def done_with_def)
    with val v Inr show ?thesis
      by (auto simp: ScalarReader_call_def split: option.splits sum.splits bool.splits)
  qed
qed

text \<open>A world that is kept shows the same row.\<close>

lemma keeps_view:
  assumes "keeps s s'" and "\<forall>k a. row_obj s k = Some a \<longrightarrow> a < length (heap s)"
  shows "view (heap s') (row_obj s') = view (heap s) (row_obj s)"
proof (rule ext)
  fix k
  from assms(1) have row: "row_obj s' = row_obj s"
    and pre: "take (length (heap s)) (heap s') = heap s"
    by (simp_all add: keeps_def)
  show "view (heap s') (row_obj s') k = view (heap s) (row_obj s) k"
  proof (cases "row_obj s k")
    case None
    with row show ?thesis by (simp add: view_def)
  next
    case (Some a)
    with assms(2) have a: "a < length (heap s)" by blast
    from pre have "length (take (length (heap s)) (heap s')) = length (heap s)" by simp
    then have le: "length (heap s) \<le> length (heap s')" by simp
    from a have "heap s ! a = take (length (heap s)) (heap s') ! a" by (simp add: pre)
    also from a have "\<dots> = heap s' ! a" by simp
    finally show ?thesis using Some row a le by (simp add: view_def)
  qed
qed

subsection \<open>Examples\<close>

text \<open>
  The claim as first stated holds of every reader. A text reader whose encode function
  fills the array it is handed with zeros hands it the row's own array: the row shows
  \<^verbatim>\<open>{"t": [1, 2]}\<close> before the invocation and \<^verbatim>\<open>{"t": [0, 0]}\<close> after it.
\<close>

theorem TextReader_mutating_encode_counterexample:
  "view (heap (text_world :: (base_reader, unit) world)) (row_obj (text_world :: (base_reader, unit) world))
     = [''t'' \<mapsto> Array [Fin 1, Fin 2]]
   \<and> TextReader_steps fill_zero (text_world :: (base_reader, unit) world)
     = (text_world\<lparr>heap := [Array [Fin 0, Fin 0]]\<rparr>, Inr [''enc'' \<mapsto> 0])
   \<and> view [Array [Fin 0, Fin 0] :: unit pyval] (row_obj (text_world :: (base_reader, unit) world))
     = [''t'' \<mapsto> Array [Fin 0, Fin 0]]
   \<and> \<not> keeps (text_world :: (base_reader, unit) world) (fst (TextReader_steps fill_zero text_world))"
  by (simp add: text_world_def TextReader_steps_def fill_zero_def step_defs dict_item_def
      view_def keeps_def fun_eq_iff)

text \<open>
  The three readers with callees that keep the world: an image reader with the library
  without files, a scalar reader with \<^verbatim>\<open>dtype=int\<close> on \<^verbatim>\<open>{"x": 3}\<close>, whose one-hot vector
  is a new object, and a text reader with the default encode function.
\<close>

theorem readers_keep_objects_witness:
  "keeps (image_world :: (image_reader, unit) world)
     (fst (ImageReader_steps (value_callee (\<lambda>v. Inr (py_str no_files v))) (decoder_callee no_files)
            image_world))
   \<and> keeps (scalar_world :: (scalar_attributes, unit) world)
     (fst (ScalarReader_steps (value_callee int_dtype) scalar_world))
   \<and> keeps (text_world :: (base_reader, unit) world)
     (fst (TextReader_steps same_object text_world))
   \<and> ScalarReader_steps (value_callee int_dtype) (scalar_world :: (scalar_attributes, unit) world)
     = (scalar_world\<lparr>heap := [Scalar (SInt 3), Scalar SNone,
                                 Array [Fin 0, Fin 0, Fin 0, Fin 1, Fin 0]]\<rparr>,
        Inr [''y'' \<mapsto> 2])"
proof -
  have run: "ScalarReader_steps (value_callee int_dtype) (scalar_world :: (scalar_attributes, unit) world)
     = (scalar_world\<lparr>heap := [Scalar (SInt 3), Scalar SNone,
                                 Array [Fin 0, Fin 0, Fin 0, Fin 1, Fin 0]]\<rparr>,
        Inr [''y'' \<mapsto> 2])"
    by (simp add: scalar_world_def ScalarReader_steps_def one_hot_steps_def step_defs
        dict_get_def np_zeros_def numeral_eq_Suc)
  have "keeps (image_world :: (image_reader, unit) world)
     (fst (ImageReader_steps (value_callee (\<lambda>v. Inr (py_str no_files v))) (decoder_callee no_files)
            image_world))
   \<and> keeps (scalar_world :: (scalar_attributes, unit) world)
     (fst (ScalarReader_steps (value_callee int_dtype) scalar_world))
   \<and> keeps (text_world :: (base_reader, unit) world)
     (fst (TextReader_steps same_object text_world))"
    by (rule readers_keep_objects)
       (simp_all add: keeps_value_callee keeps_decoder_callee keeps_same_object)
  with run show ?thesis by simp
qed

end
